theory Spec2Isabelle
  imports Complex_Main "HOL-Library.Sublist"
begin

section \<open>JavaScript values used by the server\<close>

text \<open>
  The server is \<^verbatim>\<open>src/index.js\<close>. A JavaScript string is modelled as a \<^typ>\<open>string\<close>
  whose characters are the code units U+0000 to U+00FF. Exceptions are values of
  \<open>js_error\<close>; a function that can throw returns \<open>js_error + 'a\<close>, and the outcome of an
  awaited promise is \<open>'a awaited\<close>.
\<close>

datatype js_error = TypeError string | Error string

datatype 'a awaited = Resolved 'a | Rejected js_error

subsection \<open>Strings\<close>

definition toLowerCase_char :: "char \<Rightarrow> char" where
  \<comment> \<open>\<^verbatim>\<open>String.prototype.toLowerCase\<close> on one code unit: A-Z and the Latin-1 capitals
      U+00C0 to U+00DE (without the multiplication sign U+00D7) move up by 32.\<close>
  "toLowerCase_char c =
     (let n = (of_char c :: nat)
      in if (65 \<le> n \<and> n \<le> 90) \<or> (192 \<le> n \<and> n \<le> 222 \<and> n \<noteq> 215)
         then char_of (n + 32) else c)"

definition toLowerCase :: "string \<Rightarrow> string" where
  "toLowerCase s = map toLowerCase_char s"

definition js_includes :: "string \<Rightarrow> string \<Rightarrow> bool" where
  \<comment> \<open>\<^verbatim>\<open>s.includes(k)\<close>: \<open>k\<close> occurs in \<open>s\<close> as a contiguous run.\<close>
  "js_includes s k = sublist k s"

definition isLineTerminator :: "char \<Rightarrow> bool" where
  \<comment> \<open>The characters that \<^verbatim>\<open>.\<close> of a regular expression does not match: LF and CR.\<close>
  "isLineTerminator c = ((of_char c :: nat) = 10 \<or> (of_char c :: nat) = 13)"

definition isWhiteSpace :: "char \<Rightarrow> bool" where
  \<comment> \<open>The characters matched by \<^verbatim>\<open>\s\<close> and stripped by \<^verbatim>\<open>trim()\<close>: TAB, LF, VT, FF, CR,
      space and the no-break space U+00A0.\<close>
  "isWhiteSpace c = ((of_char c :: nat) \<in> {9, 10, 11, 12, 13, 32, 160})"

definition trim :: "string \<Rightarrow> string" where
  "trim s = rev (dropWhile isWhiteSpace (rev (dropWhile isWhiteSpace s)))"

definition canonicalize :: "char \<Rightarrow> char" where
  \<comment> \<open>Canonicalize of a regular expression with the \<^verbatim>\<open>i\<close> flag (no \<^verbatim>\<open>u\<close> flag): the upper case
      of the character. Only a-z are mapped: a character from U+0080 on never canonicalizes
      to an ASCII character, and the patterns of the server are ASCII.\<close>
  "canonicalize c =
     (let n = (of_char c :: nat)
      in if 97 \<le> n \<and> n \<le> 122 then char_of (n - 32) else c)"

subsection \<open>Parsed JSON\<close>

datatype json =
    JUndefined
  | JNull
  | JBool bool
  | JNum real
  | JStr string
  | JArr "json list"
  | JObj "(string \<times> json) list"

fun truthy :: "json \<Rightarrow> bool" where
  "truthy JUndefined = False"
| "truthy JNull = False"
| "truthy (JBool b) = b"
| "truthy (JNum x) = (x \<noteq> 0)"
| "truthy (JStr s) = (s \<noteq> [])"
| "truthy (JArr xs) = True"
| "truthy (JObj kvs) = True"

fun opt_member :: "json \<Rightarrow> string \<Rightarrow> json" where
  \<comment> \<open>\<^verbatim>\<open>v?.k\<close> for the property names the server reads, none of which is a property of a
      string, a number, a boolean or an array.\<close>
  "opt_member (JObj kvs) k = (case map_of kvs k of Some v \<Rightarrow> v | None \<Rightarrow> JUndefined)"
| "opt_member v k = JUndefined"

fun member :: "json \<Rightarrow> string \<Rightarrow> js_error + json" where
  \<comment> \<open>\<^verbatim>\<open>v.k\<close>: reading a property of \<^verbatim>\<open>undefined\<close> or \<^verbatim>\<open>null\<close> throws.\<close>
  "member JUndefined k = Inl (TypeError (''Cannot read properties of undefined (reading '' @ k @ '')''))"
| "member JNull k = Inl (TypeError (''Cannot read properties of null (reading '' @ k @ '')''))"
| "member (JObj kvs) k = Inr (case map_of kvs k of Some v \<Rightarrow> v | None \<Rightarrow> JUndefined)"
| "member v k = Inr JUndefined"

fun flat_item :: "json \<Rightarrow> json list" where
  "flat_item (JArr ys) = ys"
| "flat_item v = [v]"

fun flat :: "json \<Rightarrow> js_error + json list" where
  \<comment> \<open>\<^verbatim>\<open>v.flat()\<close>: only an array has the method; on any other value the call throws.\<close>
  "flat (JArr xs) = Inr (concat (map flat_item xs))"
| "flat JUndefined = Inl (TypeError ''Cannot read properties of undefined (reading 'flat')'')"
| "flat JNull = Inl (TypeError ''Cannot read properties of null (reading 'flat')'')"
| "flat v = Inl (TypeError ''flat is not a function'')"

section \<open>Meshes and the mock catalog\<close>

record mesh =
  vertices :: "json list"
  indices :: "json list"

definition models :: "(string \<times> mesh) list" where
  \<comment> \<open>The two entries of \<^verbatim>\<open>models\<close>; their arrays hold a comment only, so they are empty.\<close>
  "models =
     [(''camera'', \<lparr>vertices = [], indices = []\<rparr>),
      (''transistor'', \<lparr>vertices = [], indices = []\<rparr>)]"

definition default_quad :: mesh where
  "default_quad =
     \<lparr>vertices = map JNum [-1, -1, -1, 1, -1, -1, 1, 1, -1, -1, 1, -1],
      indices = map JNum [0, 1, 2, 0, 2, 3]\<rparr>"

definition mockCadData :: "string option \<Rightarrow> js_error + mesh" where
  \<comment> \<open>\<^verbatim>\<open>mockCadData(prompt)\<close>; \<open>None\<close> is a call without the argument, where \<^verbatim>\<open>prompt\<close> is
      \<^verbatim>\<open>undefined\<close> and the first test of \<^verbatim>\<open>find\<close> throws. \<^verbatim>\<open>models[key]\<close> is the
      entry found.\<close>
  "mockCadData prompt =
     (case prompt of
        None \<Rightarrow> Inl (TypeError ''Cannot read properties of undefined (reading 'toLowerCase')'')
      | Some p \<Rightarrow>
          (case find (\<lambda>(k, m). js_includes (toLowerCase p) k) models of
             Some (key, m) \<Rightarrow> Inr m
           | None \<Rightarrow> Inr default_quad))"

section \<open>The mesh backend\<close>

definition bindE :: "js_error + 'a \<Rightarrow> ('a \<Rightarrow> js_error + 'b) \<Rightarrow> js_error + 'b" where
  \<comment> \<open>Sequencing of two steps inside a \<^verbatim>\<open>try\<close> block: an exception of the first skips the second.\<close>
  "bindE r f = (case r of Inl e \<Rightarrow> Inl e | Inr x \<Rightarrow> f x)"

definition zoo_try :: "json awaited \<Rightarrow> js_error + mesh" where
  \<comment> \<open>The \<^verbatim>\<open>try\<close> block of \<^verbatim>\<open>callZooCAD\<close>, after \<^verbatim>\<open>axios.post\<close> has settled with
      \<^verbatim>\<open>response.data\<close> or has rejected.\<close>
  "zoo_try post =
     (case post of
        Rejected e \<Rightarrow> Inl e
      | Resolved data \<Rightarrow>
          if \<not> truthy (opt_member (opt_member (opt_member data ''model'') ''mesh'') ''vertices'')
          then Inl (Error ''Invalid CAD response format'')
          else
            bindE (member data ''model'') (\<lambda>m.
            bindE (member m ''mesh'') (\<lambda>ms.
            bindE (member ms ''vertices'') (\<lambda>vs.
            bindE (flat vs) (\<lambda>fv.
            bindE (member ms ''faces'') (\<lambda>fs.
            bindE (flat fs) (\<lambda>ff.
              Inr \<lparr>vertices = fv, indices = ff\<rparr>)))))))"

definition callZooCAD :: "(string \<Rightarrow> json awaited) \<Rightarrow> string \<Rightarrow> mesh option" where
  \<comment> \<open>\<open>zoo prompt\<close> is how the request for \<open>prompt\<close> settles. The \<^verbatim>\<open>catch\<close> block logs and
      returns \<^verbatim>\<open>null\<close>, here \<open>None\<close>.\<close>
  "callZooCAD zoo prompt =
     (case zoo_try (zoo prompt) of Inl e \<Rightarrow> None | Inr m \<Rightarrow> Some m)"

section \<open>Regular expressions of the server\<close>

text \<open>
  A matcher tries one pattern at the start of a string and returns what it captured with
  the text after the match. \<open>first_match\<close> is the search of \<^verbatim>\<open>match\<close>, \<^verbatim>\<open>replace\<close> and
  \<^verbatim>\<open>test\<close>: the leftmost start position at which the pattern matches. Every regular
  expression of the server is a literal evaluated afresh in each call, so a search starts
  at position 0.
\<close>

fun ci_literal :: "string \<Rightarrow> string \<Rightarrow> string option" where
  \<comment> \<open>A literal under the \<^verbatim>\<open>i\<close> flag; returns the text after it.\<close>
  "ci_literal [] s = Some s"
| "ci_literal (p # ps) [] = None"
| "ci_literal (p # ps) (c # cs) =
     (if canonicalize c = canonicalize p then ci_literal ps cs else None)"

definition dot_plus :: "string \<Rightarrow> (string \<times> string) option" where
  \<comment> \<open>\<^verbatim>\<open>.+\<close> at the end of a pattern: the longest run without a line terminator, which
      must not be empty.\<close>
  "dot_plus s =
     (let run = takeWhile (\<lambda>c. \<not> isLineTerminator c) s
      in if run = [] then None else Some (run, dropWhile (\<lambda>c. \<not> isLineTerminator c) s))"

fun ws_star :: "(string \<Rightarrow> 'a option) \<Rightarrow> string \<Rightarrow> 'a option" where
  \<comment> \<open>\<^verbatim>\<open>\s*\<close> followed by the rest \<open>k\<close> of the pattern: greedy, giving white space back
      one character at a time while \<open>k\<close> fails.\<close>
  "ws_star k [] = k []"
| "ws_star k (c # cs) =
     (if isWhiteSpace c
      then (case ws_star k cs of Some r \<Rightarrow> Some r | None \<Rightarrow> k (c # cs))
      else k (c # cs))"

fun first_match :: "(string \<Rightarrow> ('a \<times> string) option) \<Rightarrow> string \<Rightarrow> (string \<times> 'a \<times> string) option" where
  \<comment> \<open>Returns the text before the match, the capture and the text after the match.\<close>
  "first_match m [] = (case m [] of Some (x, r) \<Rightarrow> Some ([], x, r) | None \<Rightarrow> None)"
| "first_match m (c # cs) =
     (case m (c # cs) of
        Some (x, r) \<Rightarrow> Some ([], x, r)
      | None \<Rightarrow> (case first_match m cs of Some (b, x, r) \<Rightarrow> Some (c # b, x, r) | None \<Rightarrow> None))"

definition marker :: string where
  "marker = ''CAD_PROMPT:''"

definition cad_prompt_capture :: "string \<Rightarrow> (string \<times> string) option" where
  \<comment> \<open>\<^verbatim>\<open>/CAD_PROMPT:\s*(.+)/i\<close> at one position; the capture is group 1.\<close>
  "cad_prompt_capture s = (case ci_literal marker s of None \<Rightarrow> None | Some r \<Rightarrow> ws_star dot_plus r)"

definition cad_prompt_line :: "string \<Rightarrow> (string \<times> string) option" where
  \<comment> \<open>\<^verbatim>\<open>/CAD_PROMPT:.+/i\<close> at one position.\<close>
  "cad_prompt_line s = (case ci_literal marker s of None \<Rightarrow> None | Some r \<Rightarrow> dot_plus r)"

definition denylist :: "string list" where
  "denylist = [''process'', ''require'', ''import'']"

fun alternatives :: "string list \<Rightarrow> string \<Rightarrow> (string \<times> string) option" where
  \<comment> \<open>\<^verbatim>\<open>(a|b|c)\<close> under the \<^verbatim>\<open>i\<close> flag: the first alternative that matches.\<close>
  "alternatives [] s = None"
| "alternatives (p # ps) s =
     (case ci_literal p s of Some r \<Rightarrow> Some (p, r) | None \<Rightarrow> alternatives ps s)"

definition restricted :: "string \<Rightarrow> bool" where
  \<comment> \<open>\<^verbatim>\<open>/(process|require|import)/gi.test(code)\<close>\<close>
  "restricted code = (first_match (alternatives denylist) code \<noteq> None)"

section \<open>The guidance backend\<close>

record guidance_result =
  guidance :: string
  cadPrompt :: string

definition instruction :: "string \<Rightarrow> string" where
  "instruction query =
     ''Act as a technical educator. First explain the concept clearly, then provide a CAD generation prompt using this format:''
     @ [CHR 0x0A] @ ''    CAD_PROMPT: [Detailed description of a 3D model that visualizes key components from your explanation]''
     @ [CHR 0x0A] @ ''    '' @ [CHR 0x0A] @ ''    User Query: '' @ query"

definition callGemini :: "(string \<Rightarrow> string awaited) \<Rightarrow> string \<Rightarrow> guidance_result" where
  \<comment> \<open>\<open>chat i\<close> is how \<^verbatim>\<open>startChat\<close>, \<^verbatim>\<open>sendMessage\<close> and \<^verbatim>\<open>text()\<close> settle for the
      instruction \<open>i\<close>: with the generated text, or with an exception.\<close>
  "callGemini chat query =
     (case chat (instruction query) of
        Resolved response \<Rightarrow>
          \<lparr>guidance =
             trim (case first_match cad_prompt_line response of
                     Some (before, x, after) \<Rightarrow> before @ after
                   | None \<Rightarrow> response),
           cadPrompt =
             (case first_match cad_prompt_capture response of
                Some (before, group1, after) \<Rightarrow>
                  if group1 \<noteq> [] then group1 else ''3D model showing: '' @ query
              | None \<Rightarrow> ''3D model showing: '' @ query)\<rparr>
      | Rejected e \<Rightarrow>
          \<lparr>guidance = ''I'm having trouble visualizing that. Let me try again...'',
           cadPrompt = ''Educational model for: '' @ query\<rparr>)"

section \<open>The socket handlers\<close>

datatype socket_event =
    MentorResponse (resp_guidance: string) (modelData: mesh)
  | ExecutionResult (result: string)

datatype handler_outcome =
    Emitted socket_event
  | Unhandled js_error

record env =
  USE_REAL_CAD :: "string option"

definition mentor_try :: "env \<Rightarrow> (string \<Rightarrow> string awaited) \<Rightarrow> (string \<Rightarrow> json awaited) \<Rightarrow> string \<Rightarrow> js_error + socket_event" where
  \<comment> \<open>The \<^verbatim>\<open>try\<close> block of the \<^verbatim>\<open>mentor_query\<close> handler. Both calls of \<^verbatim>\<open>mockCadData\<close>
      pass no argument.\<close>
  "mentor_try e chat zoo query =
     (let g = callGemini chat query
      in bindE (if USE_REAL_CAD e = Some ''true''
                then Inr (callZooCAD zoo (cadPrompt g))
                else bindE (mockCadData None) (\<lambda>m. Inr (Some m)))
           (\<lambda>cadData.
              bindE (case cadData of Some m \<Rightarrow> Inr m | None \<Rightarrow> mockCadData None)
                (\<lambda>m. Inr (MentorResponse (guidance g) m))))"

definition mentor_query :: "env \<Rightarrow> (string \<Rightarrow> string awaited) \<Rightarrow> (string \<Rightarrow> json awaited) \<Rightarrow> string \<Rightarrow> handler_outcome" where
  \<comment> \<open>The handler with its \<^verbatim>\<open>catch\<close> block. An exception thrown inside the \<^verbatim>\<open>catch\<close>
      block rejects the promise of the handler; nothing is emitted then.\<close>
  "mentor_query e chat zoo query =
     (case mentor_try e chat zoo query of
        Inr ev \<Rightarrow> Emitted ev
      | Inl err \<Rightarrow>
          (case mockCadData None of
             Inr m \<Rightarrow> Emitted (MentorResponse ''System error. Please try again later.'' m)
           | Inl err' \<Rightarrow> Unhandled err'))"

subsection \<open>Code execution\<close>

text \<open>
  \<^verbatim>\<open>codeVm\<close> is one interpreter object, created when the module is loaded and used by
  every \<^verbatim>\<open>execute_code\<close> request of every connection. Its context is a value of type
  \<open>'c\<close>; \<open>run ctx code\<close> is the completion of the script with the context it leaves. A
  returned value is kept as what the handler reads of it.
\<close>

datatype vm_value =
    VUndefined
  | VObject string  \<comment> \<open>\<^verbatim>\<open>typeof\<close> is \<^verbatim>\<open>'object'\<close>; the text is \<^verbatim>\<open>JSON.stringify(v, null, 2)\<close>\<close>
  | VOther string  \<comment> \<open>any other value; the text is \<^verbatim>\<open>v.toString()\<close>\<close>

datatype vm_completion =
    Returns vm_value
  | Throws string  \<comment> \<open>the \<^verbatim>\<open>message\<close> of the exception, among them the time-out of the interpreter\<close>

fun message :: "js_error \<Rightarrow> string" where
  "message (TypeError m) = m"
| "message (Error m) = m"

fun shape :: "vm_value \<Rightarrow> js_error + string" where
  "shape (VObject s) = Inr s"
| "shape (VOther s) = Inr s"
| "shape VUndefined = Inl (TypeError ''Cannot read properties of undefined (reading 'toString')'')"

definition execute_try :: "('c \<Rightarrow> string \<Rightarrow> vm_completion \<times> 'c) \<Rightarrow> 'c \<Rightarrow> string \<Rightarrow> (js_error + string) \<times> 'c" where
  "execute_try run ctx code =
     (if restricted code then (Inl (Error ''Restricted keywords detected''), ctx)
      else (case run ctx code of
              (Throws msg, ctx') \<Rightarrow> (Inl (Error msg), ctx')
            | (Returns v, ctx') \<Rightarrow> (shape v, ctx')))"

definition execute_code :: "('c \<Rightarrow> string \<Rightarrow> vm_completion \<times> 'c) \<Rightarrow> 'c \<Rightarrow> string \<Rightarrow> socket_event \<times> 'c" where
  \<comment> \<open>The \<^verbatim>\<open>execute_code\<close> handler: the event it emits and the context of \<^verbatim>\<open>codeVm\<close>
      afterwards.\<close>
  "execute_code run ctx code =
     (case execute_try run ctx code of
        (Inr s, ctx') \<Rightarrow> (ExecutionResult s, ctx')
      | (Inl err, ctx') \<Rightarrow> (ExecutionResult (''Execution Error: '' @ message err), ctx'))"




section \<open>Predicates of the specification\<close>

definition occurs_ci :: "string \<Rightarrow> string \<Rightarrow> bool" where
  \<comment> \<open>\<open>k\<close> occurs in \<open>s\<close> as a substring in some letter case: it does once both are folded
      to one case.\<close>
  "occurs_ci k s = sublist (map canonicalize k) (map canonicalize s)"

definition lower_ascii :: "char \<Rightarrow> bool" where
  "lower_ascii x = (97 \<le> (of_char x :: nat) \<and> (of_char x :: nat) \<le> 122)"

definition index_ok :: "nat \<Rightarrow> json \<Rightarrow> bool" where
  \<comment> \<open>An entry of the index buffer of a mesh whose vertex buffer has \<open>n\<close> entries: a
      non-negative whole number below \<open>n / 3\<close>.\<close>
  "index_ok n j =
     (case j of JNum x \<Rightarrow> 0 \<le> x \<and> x = of_int \<lfloor>x\<rfloor> \<and> x < real n / 3 | _ \<Rightarrow> False)"

definition mesh_invariant :: "mesh \<Rightarrow> bool" where
  "mesh_invariant M =
     (length (indices M) mod 3 = 0 \<and> list_all (index_ok (length (vertices M))) (indices M))"

definition mesh_field :: "json \<Rightarrow> string \<Rightarrow> json" where
  \<comment> \<open>\<^verbatim>\<open>data?.model?.mesh?.k\<close>\<close>
  "mesh_field data k = opt_member (opt_member (opt_member data ''model'') ''mesh'') k"

fun split_lines :: "string \<Rightarrow> string list" where
  \<comment> \<open>The lines of a text, split at LF.\<close>
  "split_lines [] = [[]]"
| "split_lines (c # cs) =
     (if c = CHR 0x0A then [] # split_lines cs
      else (case split_lines cs of l # ls \<Rightarrow> (c # l) # ls | [] \<Rightarrow> [[c]]))"

definition spec_directive :: "string \<Rightarrow> string \<Rightarrow> string" where
  \<comment> \<open>The directive as the specification words it: the trimmed remainder of the first
      line that has the marker as its prefix, and the directive built from the query when
      there is no such line.\<close>
  "spec_directive raw query =
     (case find (prefix marker) (split_lines raw) of
        Some l \<Rightarrow> trim (drop (length marker) l)
      | None \<Rightarrow> ''3D model showing: '' @ query)"

section \<open>Characters and case folding\<close>

lemma of_char_lt: "(of_char c :: nat) < 256"
proof -
  have "(of_char c :: nat) mod 256 = of_char c" by (rule of_char_mod_256)
  moreover have "(of_char c :: nat) mod 256 < 256" by simp
  ultimately show ?thesis by simp
qed

lemma char_of_nat_eq_iff: "(n::nat) < 256 \<Longrightarrow> char_of n = c \<longleftrightarrow> n = of_char c"
proof
  assume "n < 256" "char_of n = c"
  then have "of_char c = n mod 256" by (simp add: of_char_of [symmetric] del: of_char_of)
  with \<open>n < 256\<close> show "n = of_char c" by simp
next
  assume "n < 256" "n = of_char c"
  then show "char_of n = c" by simp
qed

lemma fold_char_iff:
  assumes "97 \<le> (of_char x :: nat)" "(of_char x :: nat) \<le> 122"
  shows "canonicalize c = canonicalize x \<longleftrightarrow> toLowerCase_char c = x"
proof -
  have cx: "canonicalize x = char_of (of_char x - 32 :: nat)"
    using assms by (simp add: canonicalize_def)
  have lt: "(of_char c :: nat) < 256" by (rule of_char_lt)
  show ?thesis
    unfolding cx unfolding canonicalize_def toLowerCase_char_def Let_def
    using assms lt
    by (auto simp: char_of_nat_eq_iff of_char_eq_iff [symmetric, where 'a = nat]
             simp del: of_char_eq_iff)
qed

lemma map_fold_iff:
  "list_all lower_ascii k \<Longrightarrow>
     map canonicalize w = map canonicalize k \<longleftrightarrow> map toLowerCase_char w = k"
proof (induction k arbitrary: w)
  case Nil
  then show ?case by simp
next
  case (Cons x k)
  show ?case
  proof (cases w)
    case Nil
    then show ?thesis by auto
  next
    case (Cons c w')
    from Cons.prems have "canonicalize c = canonicalize x \<longleftrightarrow> toLowerCase_char c = x"
      by (simp add: lower_ascii_def fold_char_iff)
    moreover from Cons.prems Cons.IH
    have "map canonicalize w' = map canonicalize k \<longleftrightarrow> map toLowerCase_char w' = k"
      by simp
    ultimately show ?thesis using Cons by simp
  qed
qed

section \<open>Substrings and searches\<close>

lemma sublist_map_iff:
  "sublist ys (map f p) \<longleftrightarrow> (\<exists>u w v. p = u @ w @ v \<and> map f w = ys)"
proof
  assume "sublist ys (map f p)"
  then obtain ps ss where "map f p = ps @ ys @ ss" by (auto simp: sublist_def)
  then have "\<exists>u r. p = u @ r \<and> ps = map f u \<and> ys @ ss = map f r"
    by (simp only: map_eq_append_conv)
  then obtain u r where p: "p = u @ r" and r: "ys @ ss = map f r"
    by blast
  from r have "\<exists>w v. r = w @ v \<and> ys = map f w \<and> ss = map f v"
    by (simp only: append_eq_map_conv)
  then obtain w v where "r = w @ v" "map f w = ys"
    by blast
  with p show "\<exists>u w v. p = u @ w @ v \<and> map f w = ys" by blast
next
  assume "\<exists>u w v. p = u @ w @ v \<and> map f w = ys"
  then obtain u w v where "p = u @ w @ v" "map f w = ys" by blast
  then have "map f p = map f u @ ys @ map f v" by simp
  then show "sublist ys (map f p)" unfolding sublist_def by blast
qed

lemma occurs_ci_iff:
  "occurs_ci k s \<longleftrightarrow> (\<exists>u w v. s = u @ w @ v \<and> map canonicalize w = map canonicalize k)"
  by (simp add: occurs_ci_def sublist_map_iff)

lemma includes_lower_iff:
  "list_all lower_ascii k \<Longrightarrow> js_includes (toLowerCase p) k \<longleftrightarrow> occurs_ci k p"
  by (simp add: js_includes_def toLowerCase_def sublist_map_iff occurs_ci_iff map_fold_iff)

lemma ci_literal_iff:
  "ci_literal p s = Some r \<longleftrightarrow> (\<exists>w. s = w @ r \<and> map canonicalize w = map canonicalize p)"
proof (induction p s rule: ci_literal.induct)
  case (1 s)
  then show ?case by auto
next
  case (2 p ps)
  then show ?case by auto
next
  case (3 p ps c cs)
  then show ?case by (auto simp: Cons_eq_append_conv)
qed

lemma first_match_None_iff:
  "first_match m s = None \<longleftrightarrow> (\<forall>u v. s = u @ v \<longrightarrow> m v = None)"
proof (induction s)
  case Nil
  then show ?case by (auto split: option.splits)
next
  case (Cons c cs)
  show ?case
  proof
    assume "first_match m (c # cs) = None"
    then have a: "m (c # cs) = None" and b: "first_match m cs = None"
      by (auto split: option.splits)
    show "\<forall>u v. c # cs = u @ v \<longrightarrow> m v = None"
    proof (intro allI impI)
      fix u v assume "c # cs = u @ v"
      then show "m v = None" using a b Cons.IH
        by (cases u) auto
    qed
  next
    assume h: "\<forall>u v. c # cs = u @ v \<longrightarrow> m v = None"
    then have "m (c # cs) = None" by (metis append_Nil)
    moreover have "first_match m cs = None"
      unfolding Cons.IH using h by (metis append_Cons)
    ultimately show "first_match m (c # cs) = None" by simp
  qed
qed

lemma alternatives_None_iff:
  "alternatives ps s = None \<longleftrightarrow> (\<forall>p\<in>set ps. ci_literal p s = None)"
  by (induction ps) (auto split: option.splits)

lemma restricted_iff: "restricted code \<longleftrightarrow> (\<exists>tok\<in>set denylist. occurs_ci tok code)"
proof -
  have "restricted code \<longleftrightarrow>
          (\<exists>u v. code = u @ v \<and> (\<exists>p\<in>set denylist. ci_literal p v \<noteq> None))"
    by (simp add: restricted_def first_match_None_iff alternatives_None_iff)
  also have "\<dots> \<longleftrightarrow>
          (\<exists>tok\<in>set denylist. \<exists>u w r. code = u @ w @ r \<and>
             map canonicalize w = map canonicalize tok)"
    by (auto simp: ci_literal_iff) blast+
  finally show ?thesis by (simp add: occurs_ci_iff)
qed

section \<open>The mock catalog\<close>

lemma find_models_iff:
  "find (\<lambda>(k, m). js_includes (toLowerCase p) k) models = find (\<lambda>(k, m). occurs_ci k p) models"
  by (simp add: models_def includes_lower_iff lower_ascii_def)

lemma default_quad_invariant: "mesh_invariant default_quad"
  by (simp add: mesh_invariant_def default_quad_def index_ok_def)

text \<open>
  Claim C9. The lookup of the mock catalog returns a mesh for every string. A string in
  which \<^verbatim>\<open>camera\<close> occurs in any letter case gets the camera entry of the catalog. A
  string in which no key of the catalog occurs in any letter case gets the default quad,
  whose vertex buffer has 12 entries (4 points) and whose index buffer has 6 entries
  (2 triangles).
\<close>

theorem mockCadData_keyword_lookup:
  "(\<exists>m. mockCadData (Some p) = Inr m) \<and>
   (occurs_ci ''camera'' p \<longrightarrow>
      (\<exists>m. map_of models ''camera'' = Some m \<and> mockCadData (Some p) = Inr m)) \<and>
   ((\<forall>k\<in>set (map fst models). \<not> occurs_ci k p) \<longrightarrow>
      mockCadData (Some p) = Inr default_quad \<and>
      length (vertices default_quad) = 3 * 4 \<and> length (indices default_quad) = 3 * 2)"
proof (intro conjI impI)
  show "\<exists>m. mockCadData (Some p) = Inr m"
    by (simp add: mockCadData_def split: option.splits prod.splits)
next
  assume "occurs_ci ''camera'' p"
  then show "\<exists>m. map_of models ''camera'' = Some m \<and> mockCadData (Some p) = Inr m"
    by (simp add: mockCadData_def find_models_iff) (simp add: models_def)
next
  assume "\<forall>k\<in>set (map fst models). \<not> occurs_ci k p"
  then have "find (\<lambda>(k, m). occurs_ci k p) models = None"
    by (auto simp: find_None_iff)
  then show "mockCadData (Some p) = Inr default_quad"
    by (simp add: mockCadData_def find_models_iff)
next
  show "length (vertices default_quad) = 3 * 4" by (simp add: default_quad_def)
next
  show "length (indices default_quad) = 3 * 2" by (simp add: default_quad_def)
qed

theorem mockCadData_keyword_lookup_witness:
  "occurs_ci ''camera'' ''A CaMeRa lens'' \<and>
   mockCadData (Some ''A CaMeRa lens'') = Inr \<lparr>vertices = [], indices = []\<rparr> \<and>
   \<not> occurs_ci ''camera'' ''a cube'' \<and> \<not> occurs_ci ''transistor'' ''a cube'' \<and>
   mockCadData (Some ''a cube'') = Inr default_quad"
proof -
  have h1: "occurs_ci ''camera'' ''A CaMeRa lens''"
    by (simp add: occurs_ci_def canonicalize_def char_of_def bit_iff_odd sublist_code)
  have h2: "\<not> occurs_ci ''camera'' ''a cube''"
    by (simp add: occurs_ci_def canonicalize_def char_of_def bit_iff_odd sublist_code)
  have h3: "\<not> occurs_ci ''transistor'' ''a cube''"
    by (simp add: occurs_ci_def canonicalize_def char_of_def bit_iff_odd sublist_code)
  from h2 h3 have h4: "\<forall>k\<in>set (map fst models). \<not> occurs_ci k ''a cube''"
    by (simp add: models_def)
  from h1 mockCadData_keyword_lookup [of "''A CaMeRa lens''"]
  obtain m where m: "map_of models ''camera'' = Some m"
    and r: "mockCadData (Some ''A CaMeRa lens'') = Inr m"
    by blast
  from m have "m = \<lparr>vertices = [], indices = []\<rparr>"
    by (simp add: models_def)
  with r have r1: "mockCadData (Some ''A CaMeRa lens'') = Inr \<lparr>vertices = [], indices = []\<rparr>"
    by simp
  from h4 mockCadData_keyword_lookup [of "''a cube''"]
  have r2: "mockCadData (Some ''a cube'') = Inr default_quad"
    by blast
  from h1 h2 h3 r1 r2 show ?thesis by blast
qed

text \<open>
  Claim C10, as stated: every mesh of the pipeline, the one of the live path included,
  satisfies the invariant. The live path returns the arrays of the backend flattened,
  without a check: a reply with one point and the triangle 0, 1, 2 comes back as a mesh
  whose indices 1 and 2 are not below the number of points.
\<close>

theorem callZooCAD_invariant_counterexample:
  "callZooCAD
     (\<lambda>prompt. Resolved (JObj [(''model'', JObj [(''mesh'', JObj
        [(''vertices'', JArr [JArr [JNum 0, JNum 0, JNum 0]]),
         (''faces'', JArr [JArr [JNum 0, JNum 1, JNum 2]])])])]))
     ''a cube''
   = Some \<lparr>vertices = [JNum 0, JNum 0, JNum 0], indices = [JNum 0, JNum 1, JNum 2]\<rparr>
   \<and> \<not> mesh_invariant
         \<lparr>vertices = [JNum 0, JNum 0, JNum 0], indices = [JNum 0, JNum 1, JNum 2]\<rparr>"
  by (simp add: callZooCAD_def zoo_try_def bindE_def mesh_invariant_def index_ok_def)

text \<open>
  Claim C10, amended: every mesh that the mock catalog returns, an entry of the catalog
  or the default quad, satisfies the invariant: the length of its index buffer is
  divisible by 3 and every index is below the number of points.
\<close>

theorem mockCadData_mesh_invariant:
  "mockCadData prompt = Inr M \<Longrightarrow> mesh_invariant M"
proof -
  assume "mockCadData prompt = Inr M"
  then have "M = default_quad \<or> M = \<lparr>vertices = [], indices = []\<rparr>"
    by (auto simp: mockCadData_def models_def split: option.splits prod.splits if_splits)
  moreover have "mesh_invariant \<lparr>vertices = [], indices = []\<rparr>"
    by (simp add: mesh_invariant_def)
  ultimately show "mesh_invariant M"
    using default_quad_invariant by blast
qed

theorem mockCadData_mesh_invariant_witness:
  "mockCadData (Some ''gear wheel'') = Inr default_quad \<and> mesh_invariant default_quad"
proof -
  have h: "mockCadData (Some ''gear wheel'') = Inr default_quad"
    by (simp add: mockCadData_def models_def js_includes_def toLowerCase_def
          toLowerCase_char_def char_of_def bit_iff_odd sublist_code)
  from mockCadData_mesh_invariant [OF h] h show ?thesis by blast
qed

section \<open>The mesh backend client\<close>

lemma opt_member_defined:
  "opt_member v k \<noteq> JUndefined \<Longrightarrow> member v k = Inr (opt_member v k)"
  by (cases v) auto

lemma zoo_try_Resolved:
  "zoo_try (Resolved data) =
     (if \<not> truthy (mesh_field data ''vertices'') then Inl (Error ''Invalid CAD response format'')
      else bindE (flat (mesh_field data ''vertices'')) (\<lambda>fv.
           bindE (flat (mesh_field data ''faces'')) (\<lambda>ff.
             Inr \<lparr>vertices = fv, indices = ff\<rparr>)))"
proof (cases "truthy (mesh_field data ''vertices'')")
  case False
  then show ?thesis by (simp add: zoo_try_def mesh_field_def)
next
  case True
  let ?m = "opt_member data ''model''"
  let ?ms = "opt_member ?m ''mesh''"
  from True have v: "opt_member ?ms ''vertices'' \<noteq> JUndefined"
    by (auto simp: mesh_field_def)
  then have ms: "?ms \<noteq> JUndefined"
    by (cases ?ms) auto
  then have m: "?m \<noteq> JUndefined"
    by (cases ?m) auto
  have a: "member data ''model'' = Inr ?m"
    using m by (rule opt_member_defined)
  have b: "member ?m ''mesh'' = Inr ?ms"
    using ms by (rule opt_member_defined)
  have c: "member ?ms ''vertices'' = Inr (opt_member ?ms ''vertices'')"
    using v by (rule opt_member_defined)
  have d: "member ?ms ''faces'' = Inr (opt_member ?ms ''faces'')"
    using v by (cases ?ms) auto
  show ?thesis
    using True unfolding mesh_field_def
    by (simp add: zoo_try_def a b c d bindE_def split: sum.splits)
qed

text \<open>
  Claim C8, as stated: a reply without a non-empty vertex array, one with an empty vertex
  array included, is a failure and never an empty mesh. The test of \<^verbatim>\<open>callZooCAD\<close> is
  the truth value of the \<^verbatim>\<open>vertices\<close> property, and an empty array is true: a reply
  with empty \<^verbatim>\<open>vertices\<close> and \<^verbatim>\<open>faces\<close> comes back as the empty mesh.
\<close>

theorem callZooCAD_empty_vertices_counterexample:
  "callZooCAD
     (\<lambda>prompt. Resolved (JObj [(''model'', JObj [(''mesh'', JObj
        [(''vertices'', JArr []), (''faces'', JArr [])])])]))
     ''a cube''
   = Some \<lparr>vertices = [], indices = []\<rparr>"
  by (simp add: callZooCAD_def zoo_try_def bindE_def)

text \<open>
  Claim C8, amended: \<^verbatim>\<open>callZooCAD\<close> never throws; it returns \<^verbatim>\<open>null\<close> when the request
  fails and when \<^verbatim>\<open>model.mesh.vertices\<close> or \<^verbatim>\<open>model.mesh.faces\<close> of the reply is missing
  or is not an array. In every other case, an empty vertex array included, it returns the
  mesh of the two arrays, each flattened by one level.
\<close>

theorem callZooCAD_result:
  "callZooCAD zoo p =
     (case zoo p of
        Rejected e \<Rightarrow> None
      | Resolved data \<Rightarrow>
          (case mesh_field data ''vertices'' of
             JArr vs \<Rightarrow>
               (case mesh_field data ''faces'' of
                  JArr fs \<Rightarrow>
                    Some \<lparr>vertices = concat (map flat_item vs),
                          indices = concat (map flat_item fs)\<rparr>
                | _ \<Rightarrow> None)
           | _ \<Rightarrow> None))"
proof (cases "zoo p")
  case (Rejected e)
  then show ?thesis by (simp add: callZooCAD_def zoo_try_def)
next
  case (Resolved data)
  have "callZooCAD zoo p = (case zoo_try (Resolved data) of Inl e \<Rightarrow> None | Inr m \<Rightarrow> Some m)"
    using Resolved by (simp add: callZooCAD_def)
  also have "\<dots> =
    (case mesh_field data ''vertices'' of
       JArr vs \<Rightarrow>
         (case mesh_field data ''faces'' of
            JArr fs \<Rightarrow>
              Some \<lparr>vertices = concat (map flat_item vs), indices = concat (map flat_item fs)\<rparr>
          | _ \<Rightarrow> None)
     | _ \<Rightarrow> None)"
    unfolding zoo_try_Resolved
    by (cases "mesh_field data ''vertices''"; cases "mesh_field data ''faces''")
       (simp_all add: bindE_def)
  finally show ?thesis using Resolved by simp
qed

theorem callZooCAD_result_witness:
  "callZooCAD (\<lambda>prompt. Resolved (JObj [(''model'', JObj [(''mesh'', JObj [])])])) ''a cube'' = None \<and>
   callZooCAD (\<lambda>prompt. Resolved (JObj [(''model'', JObj [(''mesh'', JObj
        [(''vertices'', JArr [JArr [JNum 0, JNum 0, JNum 1]]), (''faces'', JArr [])])])]))
     ''a cube''
   = Some \<lparr>vertices = [JNum 0, JNum 0, JNum 1], indices = []\<rparr>"
proof -
  have "callZooCAD (\<lambda>prompt. Resolved (JObj [(''model'', JObj [(''mesh'', JObj [])])])) ''a cube'' = None"
    by (simp add: callZooCAD_result mesh_field_def)
  moreover have "callZooCAD (\<lambda>prompt. Resolved (JObj [(''model'', JObj [(''mesh'', JObj
        [(''vertices'', JArr [JArr [JNum 0, JNum 0, JNum 1]]), (''faces'', JArr [])])])]))
     ''a cube''
   = Some \<lparr>vertices = [JNum 0, JNum 0, JNum 1], indices = []\<rparr>"
    by (simp add: callZooCAD_result mesh_field_def)
  ultimately show ?thesis by blast
qed

section \<open>The guidance client: failure of the call\<close>




section \<open>The handlers\<close>

lemma mentor_query_outcome:
  "mentor_query e chat zoo query =
     (case (if USE_REAL_CAD e = Some ''true''
            then callZooCAD zoo (cadPrompt (callGemini chat query)) else None) of
        Some m \<Rightarrow> Emitted (MentorResponse (guidance (callGemini chat query)) m)
      | None \<Rightarrow>
          Unhandled (TypeError ''Cannot read properties of undefined (reading 'toLowerCase')''))"
  by (simp add: mentor_query_def mentor_try_def mockCadData_def bindE_def Let_def
           split: option.splits)

text \<open>
  Claim C1: every \<^verbatim>\<open>mentor_query\<close> is answered by one \<^verbatim>\<open>mentor_response\<close>. The handler
  calls \<^verbatim>\<open>mockCadData\<close> without the prompt, in the \<^verbatim>\<open>try\<close> block and in the \<^verbatim>\<open>catch\<close>
  block alike, and the call throws. With the switch not set to \<^verbatim>\<open>true\<close> the handler
  emits nothing, whatever the backends do: its promise is rejected.
\<close>

theorem mentor_query_mock_mode_emits_nothing:
  "mentor_query \<lparr>USE_REAL_CAD = Some ''false''\<rparr> chat zoo query =
     Unhandled (TypeError ''Cannot read properties of undefined (reading 'toLowerCase')'')"
  by (simp add: mentor_query_def mentor_try_def mockCadData_def bindE_def Let_def)

text \<open>
  Claim C2: in live mode, a failure of the mesh backend is answered with the mesh of the
  mock catalog for the directive and with the generated explanation. The fallback is the
  same call of \<^verbatim>\<open>mockCadData\<close> without the prompt: when the request to the mesh backend
  is rejected, nothing is emitted.
\<close>

theorem mentor_query_live_failure_emits_nothing:
  "mentor_query \<lparr>USE_REAL_CAD = Some ''true''\<rparr> chat (\<lambda>prompt. Rejected err) query =
     Unhandled (TypeError ''Cannot read properties of undefined (reading 'toLowerCase')'')"
  by (simp add: mentor_query_def mentor_try_def mockCadData_def bindE_def Let_def
        callZooCAD_def zoo_try_def)

text \<open>
  Claim C4: a request whose code contains \<^verbatim>\<open>process\<close>, \<^verbatim>\<open>require\<close> or \<^verbatim>\<open>import\<close> in any
  letter case is refused with the error of the restricted keywords; the interpreter is
  not run, so the result is the same for every interpreter and the context of the
  interpreter is unchanged; the client receives the text \<^verbatim>\<open>Execution Error: \<close> followed
  by the message.
\<close>

theorem execute_code_restricted:
  "\<exists>tok\<in>set denylist. occurs_ci tok code \<Longrightarrow>
     execute_try run ctx code = (Inl (Error ''Restricted keywords detected''), ctx) \<and>
     execute_code run ctx code =
       (ExecutionResult ''Execution Error: Restricted keywords detected'', ctx)"
  by (simp add: execute_code_def execute_try_def restricted_iff)

theorem execute_code_restricted_witness:
  "occurs_ci ''process'' ''x = Process.exit()'' \<and>
   execute_code (\<lambda>ctx code. (Returns (VOther ''ran''), Suc ctx)) (0::nat) ''x = Process.exit()'' =
     (ExecutionResult ''Execution Error: Restricted keywords detected'', 0)"
proof -
  have h: "occurs_ci ''process'' ''x = Process.exit()''"
    by (simp add: occurs_ci_def canonicalize_def char_of_def bit_iff_odd sublist_code)
  then have "\<exists>tok\<in>set denylist. occurs_ci tok ''x = Process.exit()''"
    by (simp add: denylist_def)
  from execute_code_restricted
         [OF this, where run = "\<lambda>ctx code. (Returns (VOther ''ran''), Suc ctx)" and ctx = "0::nat"]
  have "execute_code (\<lambda>ctx code. (Returns (VOther ''ran''), Suc ctx)) (0::nat) ''x = Process.exit()'' =
     (ExecutionResult ''Execution Error: Restricted keywords detected'', 0)"
    by (rule conjunct2)
  with h show ?thesis by (rule conjI)
qed

section \<open>The guidance client: extraction of the directive\<close>

lemma ci_literal_length:
  "ci_literal p s = Some r \<Longrightarrow>
     \<exists>w. s = w @ r \<and> length w = length p \<and> map canonicalize w = map canonicalize p"
proof -
  assume "ci_literal p s = Some r"
  then obtain w where w: "s = w @ r" "map canonicalize w = map canonicalize p"
    unfolding ci_literal_iff by blast
  then have "length w = length p" by (metis length_map)
  with w show ?thesis by blast
qed

lemma ci_literal_self:
  "map canonicalize m = map canonicalize p \<Longrightarrow> ci_literal p (m @ t) = Some t"
  unfolding ci_literal_iff by blast

lemma no_marker_inside:
  assumes no: "\<not> occurs_ci p (pre @ butlast m)"
    and len: "length m = length p"
    and split: "pre = u @ v" and v: "v \<noteq> []"
  shows "ci_literal p (v @ m @ t) = None"
proof (rule ccontr)
  assume "ci_literal p (v @ m @ t) \<noteq> None"
  then obtain r where "ci_literal p (v @ m @ t) = Some r" by blast
  then obtain w where w: "v @ m @ t = w @ r" "length w = length p"
    "map canonicalize w = map canonicalize p"
    using ci_literal_length by blast
  have "length w \<le> length (v @ butlast m)"
    using w(2) len v by (cases v) auto
  moreover have "v @ m @ t = (v @ butlast m) @ (drop (length m - 1) m @ t)"
    by (metis append.assoc append_take_drop_id butlast_conv_take)
  ultimately have "w = take (length w) (v @ butlast m)"
    using w(1) by (metis append_eq_append_conv_if append_eq_conv_conj)
  then have "v @ butlast m = w @ drop (length w) (v @ butlast m)"
    by (metis append_take_drop_id)
  then have "pre @ butlast m = u @ w @ drop (length w) (v @ butlast m)"
    using split by simp
  then have "occurs_ci p (pre @ butlast m)"
    unfolding occurs_ci_iff using w(3) by blast
  with no show False by contradiction
qed

lemma first_match_skip:
  assumes "\<And>u v. pre = u @ v \<Longrightarrow> v \<noteq> [] \<Longrightarrow> f (v @ rest) = None"
    and "f rest = Some (x, r)"
  shows "first_match f (pre @ rest) = Some (pre, x, r)"
  using assms
proof (induction pre)
  case Nil
  then show ?case by (cases rest) auto
next
  case (Cons c pre)
  have "f ((c # pre) @ rest) = None"
    using Cons.prems(1) [of "[]" "c # pre"] by simp
  moreover have "first_match f (pre @ rest) = Some (pre, x, r)"
  proof (rule Cons.IH)
    fix u v assume "pre = u @ v" "v \<noteq> []"
    then show "f (v @ rest) = None"
      using Cons.prems(1) [of "c # u" v] by simp
  qed (rule Cons.prems(2))
  ultimately show ?case by simp
qed

lemma dot_plus_run:
  assumes "d \<noteq> []" "\<forall>c\<in>set d. \<not> isLineTerminator c"
    and "post = [] \<or> isLineTerminator (hd post)"
  shows "dot_plus (d @ post) = Some (d, post)"
proof -
  have t: "takeWhile (\<lambda>c. \<not> isLineTerminator c) (d @ post) = d"
    using assms(2,3) by (cases post) (auto simp: takeWhile_append2)
  have dr: "dropWhile (\<lambda>c. \<not> isLineTerminator c) (d @ post) = post"
    using assms(2,3) by (cases post) (auto simp: dropWhile_append2)
  show ?thesis using assms(1) by (simp add: dot_plus_def t dr)
qed

lemma ws_star_skip:
  assumes "\<forall>c\<in>set sp. isWhiteSpace c" and "d \<noteq> []" and "\<not> isWhiteSpace (hd d)"
    and "k (d @ post) = Some y"
  shows "ws_star k (sp @ d @ post) = Some y"
  using assms
proof (induction sp)
  case Nil
  then show ?case by (cases d) auto
next
  case (Cons c sp)
  then show ?case by simp
qed

lemma marker_None:
  "ci_literal marker s = None \<Longrightarrow> cad_prompt_capture s = None \<and> cad_prompt_line s = None"
  by (simp add: cad_prompt_capture_def cad_prompt_line_def)

text \<open>
  Claim C7, as stated: when the generated text has a line with the marker prefix, the
  directive is the trimmed remainder of the first such line. The capture of the regular
  expression keeps the white space at the end of the line: for the one-line text
  \<^verbatim>\<open>CAD_PROMPT: cube \<close> the directive of \<^verbatim>\<open>callGemini\<close> ends with a space, the trimmed
  remainder does not.
\<close>

theorem callGemini_directive_counterexample:
  "cadPrompt (callGemini (\<lambda>i. Resolved ''CAD_PROMPT: cube '') ''q'') = ''cube '' \<and>
   spec_directive ''CAD_PROMPT: cube '' ''q'' = ''cube''"
  by (simp add: callGemini_def cad_prompt_capture_def marker_def canonicalize_def char_of_def
        bit_iff_odd isWhiteSpace_def isLineTerminator_def dot_plus_def spec_directive_def trim_def)

text \<open>
  Claim C7, amended. Let the generated text be \<open>pre @ m @ sp @ d @ post\<close>, where \<open>m\<close> is the
  first occurrence of the marker in any letter case, \<open>sp\<close> is white space without a line
  break, \<open>d\<close> is the non-empty rest of the line and does not begin with white space, and
  \<open>post\<close> is empty or begins with a line break. Then the directive is \<open>d\<close>, with the white
  space at its end, and the explanation is \<open>pre @ post\<close> trimmed: the text without the
  marker and the rest of its line. When the marker occurs nowhere in the text, in no
  letter case, the directive is \<^verbatim>\<open>3D model showing: \<close> followed by the query and the
  explanation is the text trimmed.
\<close>

theorem callGemini_extraction:
  "(chat (instruction query) = Resolved (pre @ m @ sp @ d @ post) \<and>
    map canonicalize m = map canonicalize marker \<and> \<not> occurs_ci marker (pre @ butlast m) \<and>
    (\<forall>c\<in>set sp. isWhiteSpace c \<and> \<not> isLineTerminator c) \<and>
    d \<noteq> [] \<and> \<not> isWhiteSpace (hd d) \<and> (\<forall>c\<in>set d. \<not> isLineTerminator c) \<and>
    (post = [] \<or> isLineTerminator (hd post))
    \<longrightarrow> callGemini chat query = \<lparr>guidance = trim (pre @ post), cadPrompt = d\<rparr>) \<and>
   (chat (instruction query) = Resolved raw \<and> \<not> occurs_ci marker raw
    \<longrightarrow> callGemini chat query =
          \<lparr>guidance = trim raw, cadPrompt = ''3D model showing: '' @ query\<rparr>)"
proof (intro conjI impI)
  assume a: "chat (instruction query) = Resolved (pre @ m @ sp @ d @ post) \<and>
    map canonicalize m = map canonicalize marker \<and> \<not> occurs_ci marker (pre @ butlast m) \<and>
    (\<forall>c\<in>set sp. isWhiteSpace c \<and> \<not> isLineTerminator c) \<and>
    d \<noteq> [] \<and> \<not> isWhiteSpace (hd d) \<and> (\<forall>c\<in>set d. \<not> isLineTerminator c) \<and>
    (post = [] \<or> isLineTerminator (hd post))"
  let ?rest = "m @ sp @ d @ post"
  from a have m: "map canonicalize m = map canonicalize marker" by blast
  then have len: "length m = length marker" by (metis length_map)
  from a have no: "\<not> occurs_ci marker (pre @ butlast m)" by blast
  from a have sp: "\<forall>c\<in>set sp. isWhiteSpace c" and spl: "\<forall>c\<in>set sp. \<not> isLineTerminator c"
    by blast+
  from a have d: "d \<noteq> []" "\<not> isWhiteSpace (hd d)" "\<forall>c\<in>set d. \<not> isLineTerminator c"
    by blast+
  from a have post: "post = [] \<or> isLineTerminator (hd post)" by blast
  have lit: "ci_literal marker ?rest = Some (sp @ d @ post)"
    using m by (rule ci_literal_self)
  have "dot_plus (d @ post) = Some (d, post)"
    using d(1,3) post by (rule dot_plus_run)
  with sp d(1,2) have "ws_star dot_plus (sp @ d @ post) = Some (d, post)"
    by (rule ws_star_skip)
  with lit have cap: "cad_prompt_capture ?rest = Some (d, post)"
    by (simp add: cad_prompt_capture_def)
  have "dot_plus ((sp @ d) @ post) = Some (sp @ d, post)"
    using d(1,3) spl post by (intro dot_plus_run) auto
  with lit have line: "cad_prompt_line ?rest = Some (sp @ d, post)"
    by (simp add: cad_prompt_line_def)
  have inside: "ci_literal marker (v @ ?rest) = None" if "pre = u @ v" "v \<noteq> []" for u v
    using no len that by (rule no_marker_inside)
  have 1: "first_match cad_prompt_capture (pre @ ?rest) = Some (pre, d, post)"
    using inside cap by (intro first_match_skip) (auto simp: marker_None)
  have 2: "first_match cad_prompt_line (pre @ ?rest) = Some (pre, sp @ d, post)"
    using inside line by (intro first_match_skip) (auto simp: marker_None)
  from a have "chat (instruction query) = Resolved (pre @ ?rest)" by blast
  then show "callGemini chat query = \<lparr>guidance = trim (pre @ post), cadPrompt = d\<rparr>"
    using 1 2 d(1) by (simp add: callGemini_def)
next
  assume b: "chat (instruction query) = Resolved raw \<and> \<not> occurs_ci marker raw"
  have none: "ci_literal marker v = None" if "raw = u @ v" for u v
  proof (rule ccontr)
    assume "ci_literal marker v \<noteq> None"
    then obtain r where "ci_literal marker v = Some r" by blast
    then obtain w where "v = w @ r" "map canonicalize w = map canonicalize marker"
      unfolding ci_literal_iff by blast
    with that have "occurs_ci marker raw"
      unfolding occurs_ci_iff by blast
    with b show False by blast
  qed
  have 1: "first_match cad_prompt_capture raw = None"
    unfolding first_match_None_iff using none by (simp add: marker_None)
  have 2: "first_match cad_prompt_line raw = None"
    unfolding first_match_None_iff using none by (simp add: marker_None)
  from b show "callGemini chat query =
          \<lparr>guidance = trim raw, cadPrompt = ''3D model showing: '' @ query\<rparr>"
    using 1 2 by (simp add: callGemini_def)
qed

theorem callGemini_extraction_witness:
  "callGemini
     (\<lambda>i. Resolved (''A lens bends light.'' @ [CHR 0x0A] @ ''Cad_Prompt:  camera body ''
                      @ [CHR 0x0A] @ ''Bye.''))
     ''how does a camera work''
   = \<lparr>guidance = ''A lens bends light.'' @ [CHR 0x0A, CHR 0x0A] @ ''Bye.'',
      cadPrompt = ''camera body ''\<rparr> \<and>
   callGemini (\<lambda>i. Resolved '' A lens bends light. '') ''how does a camera work''
   = \<lparr>guidance = ''A lens bends light.'',
      cadPrompt = ''3D model showing: how does a camera work''\<rparr>"
proof -
  let ?chat1 = "\<lambda>i::string. Resolved (''A lens bends light.'' @ [CHR 0x0A]
                   @ ''Cad_Prompt:  camera body '' @ [CHR 0x0A] @ ''Bye.'')"
  let ?chat2 = "\<lambda>i::string. Resolved '' A lens bends light. ''"
  let ?pre = "''A lens bends light.'' @ [CHR 0x0A]"
  let ?post = "[CHR 0x0A] @ ''Bye.''"
  have h1: "?chat1 (instruction ''how does a camera work'') =
      Resolved (?pre @ ''Cad_Prompt:'' @ ''  '' @ ''camera body '' @ ?post)"
    by simp
  have h2: "map canonicalize ''Cad_Prompt:'' = map canonicalize marker"
    by (simp add: marker_def canonicalize_def char_of_def bit_iff_odd)
  have h3: "\<not> occurs_ci marker (?pre @ butlast ''Cad_Prompt:'')"
    by (simp add: marker_def occurs_ci_def canonicalize_def char_of_def bit_iff_odd sublist_code)
  have h4: "\<forall>c\<in>set ''  ''. isWhiteSpace c \<and> \<not> isLineTerminator c"
    by (simp add: isWhiteSpace_def isLineTerminator_def)
  have h5: "''camera body '' \<noteq> [] \<and> \<not> isWhiteSpace (hd ''camera body '') \<and>
      (\<forall>c\<in>set ''camera body ''. \<not> isLineTerminator c)"
    by (simp add: isWhiteSpace_def isLineTerminator_def)
  have h6: "?post = [] \<or> isLineTerminator (hd ?post)"
    by (simp add: isLineTerminator_def)
  have t1: "trim (?pre @ ?post) = ''A lens bends light.'' @ [CHR 0x0A, CHR 0x0A] @ ''Bye.''"
    by (simp add: trim_def isWhiteSpace_def)
  have g1: "?chat2 (instruction ''how does a camera work'') = Resolved '' A lens bends light. ''"
    by simp
  have g2: "\<not> occurs_ci marker '' A lens bends light. ''"
    by (simp add: marker_def occurs_ci_def canonicalize_def char_of_def bit_iff_odd sublist_code)
  have t2: "trim '' A lens bends light. '' = ''A lens bends light.''"
    by (simp add: trim_def isWhiteSpace_def)
  from callGemini_extraction
         [where chat = ?chat1 and query = "''how does a camera work''" and pre = ?pre
            and m = "''Cad_Prompt:''" and sp = "''  ''" and d = "''camera body ''" and post = ?post]
       h1 h2 h3 h4 h5 h6
  have r1: "callGemini ?chat1 ''how does a camera work'' =
      \<lparr>guidance = trim (?pre @ ?post), cadPrompt = ''camera body ''\<rparr>"
    by blast
  from callGemini_extraction
         [where chat = ?chat2 and query = "''how does a camera work''"
            and raw = "'' A lens bends light. ''"]
       g1 g2
  have r2: "callGemini ?chat2 ''how does a camera work'' =
      \<lparr>guidance = trim '' A lens bends light. '',
       cadPrompt = ''3D model showing: '' @ ''how does a camera work''\<rparr>"
    by blast
  from r1 r2 show ?thesis unfolding t1 t2 by simp
qed

section \<open>The shared interpreter\<close>







end
